theory Spec2Isabelle
  imports Main
begin

section \<open>Python values and dictionaries\<close>

text \<open>
  The handlers of \<^verbatim>\<open>backend/app.py\<close> receive a JSON object \<^verbatim>\<open>data\<close> and read its
  fields with \<^verbatim>\<open>data.get\<close>. A field value is \<^verbatim>\<open>None\<close> (JSON null, and what
  \<^verbatim>\<open>data.get(k)\<close> returns for a missing key), a string, an integer, a list (JSON array)
  or a dict with string keys (JSON object). Booleans and floats are outside the model.
  Strings are lists of 8-bit characters.
\<close>

datatype pyval =
    PNone
  | PStr string
  | PInt int
  | PList "pyval list"
  | PDict "(string \<times> pyval) list"

text \<open>
  Lists and dicts are unhashable: using one as a dictionary key, in \<^verbatim>\<open>d[k] = v\<close> as in
  \<^verbatim>\<open>d.get(k)\<close>, raises \<^verbatim>\<open>TypeError\<close>.
\<close>

fun hashable :: "pyval \<Rightarrow> bool" where
  "hashable (PList xs) = False"
| "hashable (PDict kvs) = False"
| "hashable v = True"

type_synonym payload = "string \<rightharpoonup> pyval"

text \<open>\<^verbatim>\<open>data.get(k)\<close> and \<^verbatim>\<open>data.get(k, d)\<close>: the default is used only when the key is missing.\<close>

definition get :: "payload \<Rightarrow> string \<Rightarrow> pyval" where
  "get data k = (case data k of None \<Rightarrow> PNone | Some v \<Rightarrow> v)"

definition get_default :: "payload \<Rightarrow> string \<Rightarrow> pyval \<Rightarrow> pyval" where
  "get_default data k d = (case data k of None \<Rightarrow> d | Some v \<Rightarrow> v)"

text \<open>
  \<^verbatim>\<open>str(v)\<close>, also what an f-string writes for \<^verbatim>\<open>{v}\<close>: a string is itself, any other
  value is written as \<^verbatim>\<open>repr\<close> writes it. \<^verbatim>\<open>repr\<close> of a string quotes it, with double
  quotes when it holds a single quote and no double quote, and escapes the quote, the
  backslash and the characters that are not printable.
\<close>

fun str_nat :: "nat \<Rightarrow> string" where
  "str_nat n =
     (if n < 10 then [char_of (48 + n)]
      else str_nat (n div 10) @ [char_of (48 + n mod 10)])"

declare str_nat.simps [simp del]

definition str_int :: "int \<Rightarrow> string" where
  "str_int i = (if i < 0 then CHR ''-'' # str_nat (nat (- i)) else str_nat (nat i))"

definition hex_digit :: "nat \<Rightarrow> char" where
  "hex_digit n = (if n < 10 then char_of (48 + n) else char_of (87 + n))"

definition printable :: "char \<Rightarrow> bool" where
  "printable c =
     (let n = (of_char c :: nat) in (32 \<le> n \<and> n < 127) \<or> (161 \<le> n \<and> n \<noteq> 173))"

definition repr_char :: "char \<Rightarrow> char \<Rightarrow> string" where
  "repr_char q c =
     (if c = q \<or> c = CHR 0x5C then [CHR 0x5C, c]
      else if c = CHR 0x09 then [CHR 0x5C, CHR ''t'']
      else if c = CHR 0x0A then [CHR 0x5C, CHR ''n'']
      else if c = CHR 0x0D then [CHR 0x5C, CHR ''r'']
      else if printable c then [c]
      else [CHR 0x5C, CHR ''x'', hex_digit (of_char c div 16), hex_digit (of_char c mod 16)])"

definition repr_str :: "string \<Rightarrow> string" where
  "repr_str s =
     (let q = (if CHR 0x27 \<in> set s \<and> CHR 0x22 \<notin> set s then CHR 0x22 else CHR 0x27)
      in q # concat (map (repr_char q) s) @ [q])"

fun commas :: "string list \<Rightarrow> string" where
  "commas [] = []"
| "commas [x] = x"
| "commas (x # y # zs) = x @ '', '' @ commas (y # zs)"

fun repr :: "pyval \<Rightarrow> string" where
  "repr PNone = ''None''"
| "repr (PStr s) = repr_str s"
| "repr (PInt i) = str_int i"
| "repr (PList xs) = ''['' @ commas (map repr xs) @ '']''"
| "repr (PDict kvs) =
     ''{'' @ commas (map (\<lambda>kv. repr_str (fst kv) @ '': '' @ repr (snd kv)) kvs) @ ''}''"

fun str :: "pyval \<Rightarrow> string" where
  "str (PStr s) = s"
| "str v = repr v"

text \<open>
  \<^verbatim>\<open>s.strip()\<close> removes leading and trailing whitespace; among the code points below 256
  Python's whitespace is 9 to 13, 28 to 32, 133 and 160.
\<close>

definition isspace :: "char \<Rightarrow> bool" where
  "isspace c = ((of_char c :: nat) \<in> set [9, 10, 11, 12, 13, 28, 29, 30, 31, 32, 133, 160])"

definition strip :: "string \<Rightarrow> string" where
  "strip s = rev (dropWhile isspace (rev (dropWhile isspace s)))"

text \<open>
  A Python \<^verbatim>\<open>dict\<close> keeps insertion order, which \<^verbatim>\<open>list(rooms.items())\<close> and
  \<^verbatim>\<open>list(room["users"].values())\<close> expose, so a dictionary is an association list with
  distinct keys: \<^verbatim>\<open>d[k] = v\<close> replaces the value in place or appends a new entry,
  \<^verbatim>\<open>del d[k]\<close> removes the entry, \<^verbatim>\<open>d.get(k)\<close> is \<open>map_of d k\<close>.
\<close>

fun dict_set :: "'k \<Rightarrow> 'v \<Rightarrow> ('k \<times> 'v) list \<Rightarrow> ('k \<times> 'v) list" where
  "dict_set k v [] = [(k, v)]"
| "dict_set k v ((k', v') # d) =
     (if k' = k then (k, v) # d else (k', v') # dict_set k v d)"

fun dict_del :: "'k \<Rightarrow> ('k \<times> 'v) list \<Rightarrow> ('k \<times> 'v) list" where
  "dict_del k [] = []"
| "dict_del k ((k', v') # d) = (if k' = k then d else (k', v') # dict_del k d)"

definition keys :: "('k \<times> 'v) list \<Rightarrow> 'k set" where
  "keys d = fst ` set d"

section \<open>Room state\<close>

type_synonym sid = string
type_synonym timestamp = string

record member =
  name :: pyval
  joined_at :: timestamp

record message =
  m_user :: pyval
  m_text :: string
  m_timestamp :: timestamp

record room =
  users :: "(sid \<times> member) list"
  messages :: "message list"
  mic_slots :: "(string \<times> pyval) list"
  user_slots :: "(pyval \<times> string) list"
  created_at :: timestamp
  updated_at :: timestamp

type_synonym rooms = "(string \<times> room) list"

section \<open>Outbound effects\<close>

text \<open>
  The calls into Flask-SocketIO are recorded in the order the handler makes them.
  \<^verbatim>\<open>join_room(r)\<close> subscribes the current connection to the broadcast group \<^verbatim>\<open>r\<close>.
  \<^verbatim>\<open>emit(e, d, to=sid)\<close> addresses one connection; \<^verbatim>\<open>emit(e, d, room=r)\<close> addresses the
  group \<^verbatim>\<open>r\<close>, the sender included unless \<^verbatim>\<open>include_self=False\<close>.
\<close>

datatype target = ToSid sid | ToRoom string bool

datatype out_data =
    Connected sid
  | RoomData "member list" "(string \<times> pyval) list" string pyval
  | NewMessage message
  | MicError string
  | MicUpdate "(string \<times> pyval) list"

datatype effect = JoinRoom string sid | Emit string out_data target

text \<open>
  A handler that raises stops there; what it assigned before the raise stays assigned. Its
  result is the exception with the registry as it stands at the raise; a handler that
  returns gives the registry and the calls it made.
\<close>

datatype error = AttributeError | KeyError | TypeError

type_synonym result = "error \<times> rooms + rooms \<times> effect list"

section \<open>Helpers and handlers\<close>

text \<open>
  \<^verbatim>\<open>get_or_create_room(room_id)\<close>; the two timestamps are the values the two calls of
  \<^verbatim>\<open>datetime.now().isoformat()\<close> return when the room is created. The result is the
  registry and the room stored under the key.
\<close>

definition get_or_create_room :: "pyval \<Rightarrow> timestamp \<Rightarrow> timestamp \<Rightarrow> rooms \<Rightarrow> rooms \<times> room" where
  "get_or_create_room rid t_created t_updated rs =
     (let room_id = str rid in
      case map_of rs room_id of
        Some r \<Rightarrow> (rs, r)
      | None \<Rightarrow>
          (let r = \<lparr>users = [], messages = [], mic_slots = [], user_slots = [],
                    created_at = t_created, updated_at = t_updated\<rparr>
           in (dict_set room_id r rs, r)))"

definition update_room_timestamp :: "string \<Rightarrow> timestamp \<Rightarrow> rooms \<Rightarrow> rooms" where
  "update_room_timestamp room_id t rs =
     (case map_of rs room_id of
        Some r \<Rightarrow> dict_set room_id (r\<lparr>updated_at := t\<rparr>) rs
      | None \<Rightarrow> rs)"

definition connect :: "sid \<Rightarrow> effect list" where
  "connect sid = [Emit ''connected'' (Connected sid) (ToSid sid)]"

text \<open>
  \<^verbatim>\<open>disconnect\<close>: the loop runs over a snapshot of the registry and stops at the first
  room whose \<^verbatim>\<open>users\<close> holds the connection.
\<close>

fun disconnect_loop :: "sid \<Rightarrow> timestamp \<Rightarrow> rooms \<Rightarrow> rooms \<Rightarrow> rooms \<times> effect list" where
  "disconnect_loop sid t [] rs = (rs, [])"
| "disconnect_loop sid t ((room_id, r) # rest) rs =
     (case map_of (users r) sid of
        None \<Rightarrow> disconnect_loop sid t rest rs
      | Some m \<Rightarrow>
          (let username = name m;
               r1 = r\<lparr>users := dict_del sid (users r)\<rparr>;
               msg = \<lparr>m_user = PStr ''System'',
                      m_text = str username @ '' left the room'',
                      m_timestamp = t\<rparr>;
               r2 = r1\<lparr>messages := messages r1 @ [msg]\<rparr>;
               e = Emit ''new_message'' (NewMessage msg) (ToRoom room_id True)
           in if users r2 = [] then (dict_del room_id rs, [e])
              else (dict_set room_id r2 rs, [e])))"

definition disconnect :: "sid \<Rightarrow> timestamp \<Rightarrow> rooms \<Rightarrow> rooms \<times> effect list" where
  "disconnect sid t rs = disconnect_loop sid t rs rs"

text \<open>
  \<^verbatim>\<open>join\<close> (event \<^verbatim>\<open>join_room\<close>); \<open>t_joined\<close> and \<open>t_msg\<close> are the clock readings for
  \<^verbatim>\<open>joined_at\<close> and for the notice.
\<close>

definition join ::
  "sid \<Rightarrow> payload \<Rightarrow> timestamp \<Rightarrow> timestamp \<Rightarrow> timestamp \<Rightarrow> timestamp \<Rightarrow> rooms
    \<Rightarrow> rooms \<times> effect list" where
  "join sid data t_created t_updated t_joined t_msg rs =
     (let room_id = str (get data ''roomId'');
          username = get_default data ''userName'' (PStr ''User'');
          (rs1, r) = get_or_create_room (PStr room_id) t_created t_updated rs;
          r1 = r\<lparr>users := dict_set sid \<lparr>name = username, joined_at = t_joined\<rparr> (users r)\<rparr>;
          e1 = JoinRoom room_id sid;
          e2 = Emit ''room_data''
                 (RoomData (map snd (users r1)) (mic_slots r1) room_id username) (ToSid sid);
          msg = \<lparr>m_user = PStr ''System'',
                 m_text = str username @ '' joined the room'',
                 m_timestamp = t_msg\<rparr>;
          r2 = r1\<lparr>messages := messages r1 @ [msg]\<rparr>;
          e3 = Emit ''new_message'' (NewMessage msg) (ToRoom room_id False)
      in (dict_set room_id r2 rs1, [e1, e2, e3]))"

text \<open>
  \<^verbatim>\<open>message\<close> (event \<^verbatim>\<open>send_message\<close>); \<^verbatim>\<open>.strip()\<close> exists on strings only, on any
  other value the attribute lookup raises.
\<close>

definition message :: "sid \<Rightarrow> payload \<Rightarrow> timestamp \<Rightarrow> rooms \<Rightarrow> result" where
  "message sid data t rs =
     (let room_id = str (get data ''roomId'') in
      case get_default data ''text'' (PStr []) of
        PStr raw \<Rightarrow>
          (let txt = strip raw;
               username = get_default data ''userName'' (PStr ''User'')
           in case map_of rs room_id of
                None \<Rightarrow> Inr (rs, [])
              | Some r \<Rightarrow>
                  if txt = [] then Inr (rs, [])
                  else
                    (let msg = \<lparr>m_user = username, m_text = txt, m_timestamp = t\<rparr>
                     in Inr (dict_set room_id (r\<lparr>messages := messages r @ [msg]\<rparr>) rs,
                             [Emit ''new_message'' (NewMessage msg) (ToRoom room_id True)])))
      | _ \<Rightarrow> Inl (AttributeError, rs))"

text \<open>
  \<^verbatim>\<open>join_mic\<close>; \<^verbatim>\<open>room["mic_slots"][slot] = username\<close> takes any value, and
  \<^verbatim>\<open>room["user_slots"][username] = slot\<close> after it raises when \<^verbatim>\<open>username\<close> is unhashable.
\<close>

definition join_mic :: "sid \<Rightarrow> payload \<Rightarrow> rooms \<Rightarrow> result" where
  "join_mic sid data rs =
     (let room_id = str (get data ''roomId'');
          slot = str (get data ''slot'');
          username = get data ''userName''
      in case map_of rs room_id of
           None \<Rightarrow> Inr (rs, [])
         | Some r \<Rightarrow>
             (case map_of (mic_slots r) slot of
                Some holder \<Rightarrow>
                  Inr (rs, [Emit ''mic_error'' (MicError ''Slot already taken'') (ToSid sid)])
              | None \<Rightarrow>
                  (let r1 = r\<lparr>mic_slots := dict_set slot username (mic_slots r)\<rparr> in
                   if \<not> hashable username then Inl (TypeError, dict_set room_id r1 rs)
                   else
                     (let r2 = r1\<lparr>user_slots := dict_set username slot (user_slots r1)\<rparr>
                      in Inr (dict_set room_id r2 rs,
                              [Emit ''mic_update'' (MicUpdate (mic_slots r2))
                                 (ToRoom room_id True)])))))"

text \<open>
  \<^verbatim>\<open>leave_mic\<close>; \<^verbatim>\<open>room["user_slots"].get(username)\<close> raises when \<^verbatim>\<open>username\<close> is
  unhashable, \<^verbatim>\<open>if slot:\<close> is false for \<^verbatim>\<open>None\<close> and for the empty string, and
  \<^verbatim>\<open>del room["mic_slots"][...]\<close> raises when the key is absent.
\<close>

definition leave_mic :: "sid \<Rightarrow> payload \<Rightarrow> rooms \<Rightarrow> result" where
  "leave_mic sid data rs =
     (let room_id = str (get data ''roomId'');
          username = get data ''userName''
      in case map_of rs room_id of
           None \<Rightarrow> Inr (rs, [])
         | Some r \<Rightarrow>
             if \<not> hashable username then Inl (TypeError, rs)
             else
               (case map_of (user_slots r) username of
                  None \<Rightarrow> Inr (rs, [])
                | Some slot \<Rightarrow>
                    if slot = [] then Inr (rs, [])
                    else
                      (case map_of (mic_slots r) (str (PStr slot)) of
                         None \<Rightarrow> Inl (KeyError, rs)
                       | Some holder \<Rightarrow>
                           (let r1 = r\<lparr>mic_slots := dict_del (str (PStr slot)) (mic_slots r)\<rparr>;
                                r2 = r1\<lparr>user_slots := dict_del username (user_slots r1)\<rparr>
                            in Inr (dict_set room_id r2 rs,
                                    [Emit ''mic_update'' (MicUpdate (mic_slots r2))
                                       (ToRoom room_id True)])))))"

section \<open>The server as a transition system\<close>

text \<open>
  One inbound event with the connection it arrives on and the clock readings its handler
  takes. The next event finds the registry as the handler left it, whether it returned or
  raised.
\<close>

datatype event =
    OnConnect sid
  | OnDisconnect sid timestamp
  | OnJoinRoom sid payload timestamp timestamp timestamp timestamp
  | OnSendMessage sid payload timestamp
  | OnJoinMic sid payload
  | OnLeaveMic sid payload

fun handle :: "event \<Rightarrow> rooms \<Rightarrow> result" where
  "handle (OnConnect sid) rs = Inr (rs, connect sid)"
| "handle (OnDisconnect sid t) rs = Inr (disconnect sid t rs)"
| "handle (OnJoinRoom sid data tc tu tj tm) rs = Inr (join sid data tc tu tj tm rs)"
| "handle (OnSendMessage sid data t) rs = message sid data t rs"
| "handle (OnJoinMic sid data) rs = join_mic sid data rs"
| "handle (OnLeaveMic sid data) rs = leave_mic sid data rs"

definition step :: "rooms \<Rightarrow> event \<Rightarrow> rooms" where
  "step rs ev = (case handle ev rs of Inl (e, rs') \<Rightarrow> rs' | Inr (rs', out) \<Rightarrow> rs')"

text \<open>The registry after a sequence of events, starting from \<^verbatim>\<open>rooms = {}\<close>.\<close>

definition run :: "event list \<Rightarrow> rooms" where
  "run evs = foldl step [] evs"

section \<open>Observations and invariants\<close>

text \<open>The connections recorded in the \<^verbatim>\<open>users\<close> of a room, empty when the room is absent.\<close>

definition members :: "rooms \<Rightarrow> string \<Rightarrow> sid list" where
  "members rs room_id = (case map_of rs room_id of None \<Rightarrow> [] | Some r \<Rightarrow> map fst (users r))"

text \<open>
  The first room, in registry order, whose \<^verbatim>\<open>users\<close> holds the connection: the room at
  which the scan of \<^verbatim>\<open>disconnect\<close> stops.
\<close>

fun find_room :: "sid \<Rightarrow> rooms \<Rightarrow> (string \<times> room) option" where
  "find_room sid [] = None"
| "find_room sid ((room_id, r) # rest) =
     (case map_of (users r) sid of None \<Rightarrow> find_room sid rest | Some m \<Rightarrow> Some (room_id, r))"

text \<open>
  What every handler keeps true of a room: the keys of each dictionary are distinct, the
  room has a member, and every entry of \<^verbatim>\<open>user_slots\<close> is mirrored in \<^verbatim>\<open>mic_slots\<close>.
\<close>

definition room_ok :: "room \<Rightarrow> bool" where
  "room_ok r \<longleftrightarrow>
     distinct (map fst (users r)) \<and> distinct (map fst (mic_slots r)) \<and>
     distinct (map fst (user_slots r)) \<and> users r \<noteq> [] \<and>
     (\<forall>u s. map_of (user_slots r) u = Some s \<longrightarrow> map_of (mic_slots r) s = Some u)"

definition rooms_ok :: "rooms \<Rightarrow> bool" where
  "rooms_ok rs \<longleftrightarrow> distinct (map fst rs) \<and> (\<forall>r \<in> snd ` set rs. room_ok r)"

text \<open>
  The slot dictionaries of a room, empty when the room is absent, and the property that
  they are inverse to each other.
\<close>

definition mic_slots_of :: "rooms \<Rightarrow> string \<Rightarrow> (string \<times> pyval) list" where
  "mic_slots_of rs room_id = (case map_of rs room_id of None \<Rightarrow> [] | Some r \<Rightarrow> mic_slots r)"

definition user_slots_of :: "rooms \<Rightarrow> string \<Rightarrow> (pyval \<times> string) list" where
  "user_slots_of rs room_id = (case map_of rs room_id of None \<Rightarrow> [] | Some r \<Rightarrow> user_slots r)"

definition slots_inverse :: "rooms \<Rightarrow> string \<Rightarrow> bool" where
  "slots_inverse rs room_id \<longleftrightarrow>
     (\<forall>slot u. map_of (mic_slots_of rs room_id) slot = Some u \<longleftrightarrow>
               map_of (user_slots_of rs room_id) u = Some slot)"

text \<open>Payloads of the four events, with every field a string.\<close>

abbreviation join_room_data :: "string \<Rightarrow> string \<Rightarrow> payload" where
  "join_room_data room_id user \<equiv> [''roomId'' \<mapsto> PStr room_id, ''userName'' \<mapsto> PStr user]"

abbreviation join_mic_data :: "string \<Rightarrow> string \<Rightarrow> string \<Rightarrow> payload" where
  "join_mic_data room_id slot user \<equiv>
     [''roomId'' \<mapsto> PStr room_id, ''slot'' \<mapsto> PStr slot, ''userName'' \<mapsto> PStr user]"

abbreviation leave_mic_data :: "string \<Rightarrow> string \<Rightarrow> payload" where
  "leave_mic_data room_id user \<equiv> [''roomId'' \<mapsto> PStr room_id, ''userName'' \<mapsto> PStr user]"


section \<open>Dictionary lemmas\<close>

lemma map_of_dict_set: "map_of (dict_set k v d) = (map_of d)(k \<mapsto> v)"
  by (induction d) (auto simp: fun_eq_iff)

lemma keys_dom: "keys d = dom (map_of d)"
  by (simp add: keys_def dom_map_of_conv_image_fst)

lemma keys_dict_set: "keys (dict_set k v d) = insert k (keys d)"
  by (simp add: keys_dom map_of_dict_set)

lemma set_dict_set: "set (dict_set k v d) \<subseteq> insert (k, v) (set d)"
  by (induction d) (auto split: if_splits)

lemma distinct_dict_set: "distinct (map fst d) \<Longrightarrow> distinct (map fst (dict_set k v d))"
proof (induction d)
  case Nil
  then show ?case by simp
next
  case (Cons p d)
  have "fst ` set (dict_set k v d) \<subseteq> insert k (fst ` set d)"
    using keys_dict_set [of k v d] by (simp add: keys_def)
  with Cons show ?case by (cases p) auto
qed

lemma dict_set_nonempty: "dict_set k v d \<noteq> []"
  by (cases d) (auto split: if_splits)

lemma set_dict_del: "set (dict_del k d) \<subseteq> set d"
  by (induction d) (auto split: if_splits)

lemma distinct_dict_del: "distinct (map fst d) \<Longrightarrow> distinct (map fst (dict_del k d))"
proof (induction d)
  case Nil
  then show ?case by simp
next
  case (Cons p d)
  have "fst ` set (dict_del k d) \<subseteq> fst ` set d"
    using set_dict_del [of k d] by blast
  with Cons show ?case by (cases p) auto
qed

lemma map_of_dict_del:
  "distinct (map fst d) \<Longrightarrow> map_of (dict_del k d) = (map_of d)(k := None)"
proof (induction d)
  case Nil
  then show ?case by simp
next
  case (Cons p d)
  obtain k' v' where p: "p = (k', v')" by (cases p)
  show ?case
  proof (cases "k' = k")
    case True
    with Cons.prems p have "map_of d k = None"
      by (simp add: map_of_eq_None_iff)
    with True p show ?thesis by (auto simp: fun_eq_iff)
  next
    case False
    with Cons p show ?thesis by (auto simp: fun_eq_iff)
  qed
qed

lemma map_of_keys: "(map_of d k = None) = (k \<notin> keys d)"
  by (simp add: keys_def map_of_eq_None_iff)

lemma keys_dict_del: "distinct (map fst d) \<Longrightarrow> keys (dict_del k d) = keys d - {k}"
proof -
  assume d: "distinct (map fst d)"
  have "k' \<in> keys (dict_del k d) \<longleftrightarrow> k' \<in> keys d - {k}" for k'
    using map_of_dict_del [OF d, of k] map_of_keys [of "dict_del k d" k'] map_of_keys [of d k']
    by (auto split: if_splits)
  then show ?thesis by blast
qed

lemmas handler_defs = run_def step_def join_def disconnect_def message_def join_mic_def
  leave_mic_def get_def get_default_def get_or_create_room_def members_def keys_def Let_def

section \<open>The invariant holds in every reachable registry\<close>

lemma rooms_ok_Nil: "rooms_ok []"
  by (simp add: rooms_ok_def)

lemma rooms_ok_lookup: "rooms_ok rs \<Longrightarrow> map_of rs k = Some r \<Longrightarrow> room_ok r"
  by (force simp: rooms_ok_def dest: map_of_SomeD)

lemma rooms_ok_dict_set: "rooms_ok rs \<Longrightarrow> room_ok r \<Longrightarrow> rooms_ok (dict_set k r rs)"
  unfolding rooms_ok_def using set_dict_set [of k r rs] distinct_dict_set [of rs k r]
  by auto

lemma rooms_ok_dict_del: "rooms_ok rs \<Longrightarrow> rooms_ok (dict_del k rs)"
  unfolding rooms_ok_def using set_dict_del [of k rs] distinct_dict_del [of rs k]
  by auto

lemma dict_set_twice: "dict_set k v (dict_set k v' d) = dict_set k v d"
  by (induction d) auto

lemma rooms_ok_join: "rooms_ok rs \<Longrightarrow> rooms_ok (fst (join sid data tc tu tj tm rs))"
proof -
  assume ok: "rooms_ok rs"
  let ?rid = "str (get data ''roomId'')"
  show ?thesis
  proof (cases "map_of rs ?rid")
    case None
    then show ?thesis
      using ok
      by (auto simp: join_def get_or_create_room_def Let_def room_ok_def dict_set_twice
          intro!: rooms_ok_dict_set)
  next
    case (Some r)
    then have "room_ok r" using ok by (rule rooms_ok_lookup [rotated])
    then show ?thesis
      using ok Some
      by (auto simp: join_def get_or_create_room_def Let_def room_ok_def dict_set_nonempty
          distinct_dict_set intro!: rooms_ok_dict_set)
  qed
qed

lemma rooms_ok_disconnect_loop:
  "rooms_ok rs \<Longrightarrow> set rest \<subseteq> set rs \<Longrightarrow> rooms_ok (fst (disconnect_loop sid t rest rs))"
proof (induction rest)
  case Nil
  then show ?case by simp
next
  case (Cons p rest)
  obtain k r where p: "p = (k, r)" by (cases p)
  with Cons.prems have "r \<in> snd ` set rs" by force
  with Cons.prems have r: "room_ok r" by (auto simp: rooms_ok_def)
  show ?case
  proof (cases "map_of (users r) sid")
    case None
    with Cons p show ?thesis by simp
  next
    case (Some m)
    have "room_ok (r\<lparr>users := dict_del sid (users r), messages := ms\<rparr>)"
      if "dict_del sid (users r) \<noteq> []" for ms
      using r that by (simp add: room_ok_def distinct_dict_del)
    with Some p Cons.prems show ?thesis
      by (auto simp: Let_def intro!: rooms_ok_dict_set rooms_ok_dict_del)
  qed
qed

lemma rooms_ok_disconnect: "rooms_ok rs \<Longrightarrow> rooms_ok (fst (disconnect sid t rs))"
  by (simp add: disconnect_def rooms_ok_disconnect_loop)

lemma rooms_ok_message:
  "rooms_ok rs \<Longrightarrow> message sid data t rs = Inr (rs', out) \<Longrightarrow> rooms_ok rs'"
  by (auto simp: message_def Let_def room_ok_def split: pyval.splits option.splits if_splits
      dest: rooms_ok_lookup intro!: rooms_ok_dict_set)

lemma message_raise: "message sid data t rs = Inl (e, rs') \<Longrightarrow> rs' = rs"
  by (auto simp: message_def Let_def split: pyval.splits option.splits if_splits)

lemma room_ok_join_mic:
  assumes "room_ok r" and "map_of (mic_slots r) slot = None"
  shows "room_ok (r\<lparr>mic_slots := dict_set slot u (mic_slots r),
                    user_slots := dict_set u slot (user_slots r)\<rparr>)"
  using assms by (auto simp: room_ok_def distinct_dict_set map_of_dict_set)

lemma room_ok_join_mic_raise:
  assumes "room_ok r" and "map_of (mic_slots r) slot = None"
  shows "room_ok (r\<lparr>mic_slots := dict_set slot u (mic_slots r)\<rparr>)"
  using assms by (auto simp: room_ok_def distinct_dict_set map_of_dict_set)

lemma rooms_ok_join_mic:
  "rooms_ok rs \<Longrightarrow> join_mic sid data rs = Inr (rs', out) \<Longrightarrow> rooms_ok rs'"
  by (auto simp: join_mic_def Let_def split: option.splits if_splits
      dest: rooms_ok_lookup intro!: rooms_ok_dict_set room_ok_join_mic)

lemma rooms_ok_join_mic_raise:
  "rooms_ok rs \<Longrightarrow> join_mic sid data rs = Inl (e, rs') \<Longrightarrow> rooms_ok rs'"
  by (auto simp: join_mic_def Let_def split: option.splits if_splits
      dest: rooms_ok_lookup intro!: rooms_ok_dict_set room_ok_join_mic_raise)

lemma room_ok_leave_mic:
  assumes "room_ok r" and "map_of (user_slots r) u = Some slot"
  shows "room_ok (r\<lparr>mic_slots := dict_del slot (mic_slots r),
                    user_slots := dict_del u (user_slots r)\<rparr>)"
proof -
  from assms have mic: "map_of (mic_slots r) slot = Some u"
    by (simp add: room_ok_def)
  have "map_of (mic_slots r) s = Some u'" "s \<noteq> slot"
    if "u' \<noteq> u" "map_of (user_slots r) u' = Some s" for u' s
  proof -
    from assms(1) that(2) show "map_of (mic_slots r) s = Some u'"
      by (simp add: room_ok_def)
    with mic that(1) show "s \<noteq> slot" by auto
  qed
  with assms(1) show ?thesis
    by (simp add: room_ok_def distinct_dict_del map_of_dict_del del: map_of_eq_Some_iff)
qed

lemma rooms_ok_leave_mic:
  "rooms_ok rs \<Longrightarrow> leave_mic sid data rs = Inr (rs', out) \<Longrightarrow> rooms_ok rs'"
  by (auto simp: leave_mic_def Let_def split: option.splits if_splits
      dest: rooms_ok_lookup intro!: rooms_ok_dict_set room_ok_leave_mic)

lemma leave_mic_raise: "leave_mic sid data rs = Inl (e, rs') \<Longrightarrow> rs' = rs"
  by (auto simp: leave_mic_def Let_def split: option.splits if_splits)

lemma rooms_ok_step: "rooms_ok rs \<Longrightarrow> rooms_ok (step rs ev)"
proof (cases ev)
  case (OnJoinRoom sid data tc tu tj tm)
  assume "rooms_ok rs"
  then show ?thesis
    using rooms_ok_join [of rs sid data tc tu tj tm] OnJoinRoom
    by (auto simp: step_def split: prod.splits)
next
  case (OnDisconnect sid t)
  assume "rooms_ok rs"
  then show ?thesis
    using rooms_ok_disconnect [of rs sid t] OnDisconnect
    by (auto simp: step_def split: prod.splits)
qed (auto simp: step_def split: sum.splits
    dest: rooms_ok_message message_raise rooms_ok_join_mic rooms_ok_join_mic_raise
      rooms_ok_leave_mic leave_mic_raise)

lemma rooms_ok_foldl: "rooms_ok rs \<Longrightarrow> rooms_ok (foldl step rs evs)"
  by (induction evs arbitrary: rs) (simp_all add: rooms_ok_step)

lemma rooms_ok_run: "rooms_ok (run evs)"
  by (simp add: run_def rooms_ok_foldl rooms_ok_Nil)

section \<open>Locating the room of a connection\<close>

lemma find_room_SomeD:
  "find_room sid rs = Some (k, r) \<Longrightarrow> (k, r) \<in> set rs \<and> (\<exists>m. map_of (users r) sid = Some m)"
  by (induction rs) (auto split: option.splits)


lemma find_room_exists:
  "(k, r) \<in> set rs \<Longrightarrow> map_of (users r) sid = Some m \<Longrightarrow> find_room sid rs \<noteq> None"
  by (induction rs) (auto split: option.splits)

lemma disconnect_loop_find:
  "disconnect_loop sid t rest rs =
     (case find_room sid rest of
        None \<Rightarrow> (rs, [])
      | Some (room_id, r) \<Rightarrow>
          (let msg = \<lparr>m_user = PStr ''System'',
                      m_text = str (name (the (map_of (users r) sid))) @ '' left the room'',
                      m_timestamp = t\<rparr>;
               r2 = r\<lparr>users := dict_del sid (users r), messages := messages r @ [msg]\<rparr>;
               e = Emit ''new_message'' (NewMessage msg) (ToRoom room_id True)
           in if dict_del sid (users r) = [] then (dict_del room_id rs, [e])
              else (dict_set room_id r2 rs, [e])))"
  by (induction rest) (auto split: option.splits simp: Let_def)

lemma members_keys: "rooms_ok rs \<Longrightarrow> (room_id \<in> keys rs) = (members rs room_id \<noteq> [])"
proof -
  assume ok: "rooms_ok rs"
  show ?thesis
  proof (cases "map_of rs room_id")
    case None
    then show ?thesis
      using map_of_keys [of rs room_id] by (simp add: members_def)
  next
    case (Some r)
    with ok have "room_ok r" by (rule rooms_ok_lookup)
    then have "users r \<noteq> []" by (simp add: room_ok_def)
    with Some show ?thesis
      using map_of_keys [of rs room_id] by (simp add: members_def)
  qed
qed

lemma in_members: 
  "distinct (map fst rs) \<Longrightarrow> (k, r) \<in> set rs \<Longrightarrow> map_of (users r) sid = Some m \<Longrightarrow> sid \<in> set (members rs k)"
  by (auto simp: members_def dest!: map_of_SomeD intro: rev_image_eqI)




section \<open>Whitespace and the slot index\<close>

lemmas observer_defs = mic_slots_of_def user_slots_of_def


text \<open>
  In every reachable registry each entry of \<^verbatim>\<open>user_slots\<close> has its mirror in
  \<^verbatim>\<open>mic_slots\<close>, so the \<^verbatim>\<open>del\<close> of \<^verbatim>\<open>leave_mic\<close> never misses its key.
\<close>

lemma user_slots_mirrored:
  "map_of (user_slots_of (run evs) room_id) u = Some s \<Longrightarrow>
   map_of (mic_slots_of (run evs) room_id) s = Some u"
proof (cases "map_of (run evs) room_id")
  case None
  assume "map_of (user_slots_of (run evs) room_id) u = Some s"
  with None show ?thesis by (simp add: observer_defs)
next
  case (Some r)
  assume a: "map_of (user_slots_of (run evs) room_id) u = Some s"
  from Some have "room_ok r" using rooms_ok_run by (rule rooms_ok_lookup [rotated])
  with a Some show ?thesis by (simp add: observer_defs room_ok_def)
qed

lemma leave_mic_no_KeyError: "leave_mic sid data (run evs) \<noteq> Inl (KeyError, rs')"
proof
  assume e: "leave_mic sid data (run evs) = Inl (KeyError, rs')"
  let ?k = "str (get data ''roomId'')" and ?u = "get data ''userName''"
  from e obtain r where r: "map_of (run evs) ?k = Some r"
    by (auto simp: leave_mic_def Let_def split: option.splits)
  with e obtain s where s: "map_of (user_slots r) ?u = Some s"
    by (auto simp: leave_mic_def Let_def split: option.splits if_splits)
  from e r s have none: "map_of (mic_slots r) s = None"
    by (auto simp: leave_mic_def Let_def split: option.splits if_splits)
  from r have "room_ok r" using rooms_ok_run by (rule rooms_ok_lookup [rotated])
  with s have "map_of (mic_slots r) s = Some ?u" by (simp add: room_ok_def)
  with none show False by simp
qed

text \<open>
  \<^verbatim>\<open>leave_mic\<close> in a reachable registry, for a hashable user name: nothing happens when
  the room is absent or the user has no entry in \<^verbatim>\<open>user_slots\<close>; when the user holds a
  non-empty slot, both entries are deleted and the updated \<^verbatim>\<open>mic_slots\<close> is emitted to the
  group of the room.
\<close>

lemma leave_mic_effect:
  assumes "rs = run evs" and "room_id = str (get data ''roomId'')"
    and "username = get data ''userName''" and "hashable username"
  shows "(map_of rs room_id = None \<longrightarrow> leave_mic sid data rs = Inr (rs, [])) \<and>
    (\<forall>r. map_of rs room_id = Some r \<and> map_of (user_slots r) username = None \<longrightarrow>
       leave_mic sid data rs = Inr (rs, [])) \<and>
    (\<forall>r slot. map_of rs room_id = Some r \<and> map_of (user_slots r) username = Some slot \<and>
         slot \<noteq> [] \<longrightarrow>
       (\<exists>rs' r'. leave_mic sid data rs =
            Inr (rs', [Emit ''mic_update'' (MicUpdate (mic_slots r')) (ToRoom room_id True)]) \<and>
          map_of rs' room_id = Some r' \<and>
          mic_slots r' = dict_del slot (mic_slots r) \<and>
          user_slots r' = dict_del username (user_slots r) \<and>
          slot \<notin> keys (mic_slots r') \<and> username \<notin> keys (user_slots r') \<and>
          users r' = users r \<and> messages r' = messages r \<and>
          (\<forall>k. k \<noteq> room_id \<longrightarrow> map_of rs' k = map_of rs k)))"
proof (intro conjI allI impI)
  show "leave_mic sid data rs = Inr (rs, [])" if "map_of rs room_id = None"
    using that assms by (simp add: leave_mic_def)
  show "leave_mic sid data rs = Inr (rs, [])"
    if "map_of rs room_id = Some r \<and> map_of (user_slots r) username = None" for r
    using that assms by (simp add: leave_mic_def)
  fix r slot
  assume a: "map_of rs room_id = Some r \<and> map_of (user_slots r) username = Some slot \<and> slot \<noteq> []"
  have "rooms_ok rs" using assms(1) rooms_ok_run by simp
  with a have ok: "room_ok r" by (auto intro: rooms_ok_lookup)
  with a have holder: "map_of (mic_slots r) slot = Some username"
    unfolding room_ok_def by blast
  from ok have d: "distinct (map fst (mic_slots r))" "distinct (map fst (user_slots r))"
    by (simp_all add: room_ok_def)
  define r' where "r' = r\<lparr>mic_slots := dict_del slot (mic_slots r),
                            user_slots := dict_del username (user_slots r)\<rparr>"
  have eq: "leave_mic sid data rs =
      Inr (dict_set room_id r' rs,
           [Emit ''mic_update'' (MicUpdate (mic_slots r')) (ToRoom room_id True)])"
    using a holder assms(2,3,4) by (simp add: leave_mic_def Let_def r'_def)
  have gone: "slot \<notin> keys (mic_slots r')" "username \<notin> keys (user_slots r')"
    using d by (simp_all add: r'_def keys_dict_del)
  show "\<exists>rs' r'. leave_mic sid data rs =
            Inr (rs', [Emit ''mic_update'' (MicUpdate (mic_slots r')) (ToRoom room_id True)]) \<and>
          map_of rs' room_id = Some r' \<and>
          mic_slots r' = dict_del slot (mic_slots r) \<and>
          user_slots r' = dict_del username (user_slots r) \<and>
          slot \<notin> keys (mic_slots r') \<and> username \<notin> keys (user_slots r') \<and>
          users r' = users r \<and> messages r' = messages r \<and>
          (\<forall>k. k \<noteq> room_id \<longrightarrow> map_of rs' k = map_of rs k)"
    apply (rule exI [of _ "dict_set room_id r' rs"], rule exI [of _ r'])
    using eq gone by (simp add: map_of_dict_set) (simp add: r'_def)
qed

section \<open>The registry and its members\<close>

text \<open>
  After any sequence of events a room identifier is a key of the registry exactly when
  the room has a member, and the disconnect of a room's only member deletes the room when
  that connection is recorded in no other room.
\<close>

lemma keys_iff_members: "room_id \<in> keys (run evs) \<longleftrightarrow> members (run evs) room_id \<noteq> []"
  using rooms_ok_run by (rule members_keys)

lemma sole_room_disconnect_deletes:
  assumes "members (run evs) room_id = [sid]"
    and "\<forall>k. k \<noteq> room_id \<longrightarrow> sid \<notin> set (members (run evs) k)"
  shows "room_id \<notin> keys (fst (disconnect sid t (run evs)))"
proof -
  let ?rs = "run evs"
  from assms have a: "members ?rs room_id = [sid] \<and>
      (\<forall>k. k \<noteq> room_id \<longrightarrow> sid \<notin> set (members ?rs k))" by simp
  have ok: "rooms_ok ?rs" by (rule rooms_ok_run)
  then have dist: "distinct (map fst ?rs)" by (simp add: rooms_ok_def)
  from a obtain r where r: "map_of ?rs room_id = Some r" "map fst (users r) = [sid]"
    by (auto simp: members_def split: option.splits)
  then obtain m where m: "users r = [(sid, m)]" by (cases "users r") auto
  from r(1) have "(room_id, r) \<in> set ?rs" by (rule map_of_SomeD)
  moreover from m have "map_of (users r) sid = Some m" by simp
  ultimately have "find_room sid ?rs \<noteq> None"
    by (rule find_room_exists)
  then obtain k r' where f: "find_room sid ?rs = Some (k, r')" by auto
  then have kr: "(k, r') \<in> set ?rs" and "\<exists>m. map_of (users r') sid = Some m"
    using find_room_SomeD by blast+
  with dist have "sid \<in> set (members ?rs k)" by (auto intro: in_members)
  with a have "k = room_id" by blast
  with kr dist r(1) have "r' = r" by simp
  with f \<open>k = room_id\<close> m have "fst (disconnect sid t ?rs) = dict_del room_id ?rs"
    by (simp add: disconnect_def disconnect_loop_find)
  with dist show ?thesis
    by (simp add: keys_dict_del)
qed

section \<open>Claiming a slot\<close>

text \<open>
  \<^verbatim>\<open>join_mic\<close> on an existing room: a taken slot gives \<^verbatim>\<open>mic_error\<close> to the requesting
  connection and no change; a free slot and a hashable user name give both assignments
  and the updated \<^verbatim>\<open>mic_slots\<close> emitted to the group of the room; a free slot and an
  unhashable user name give the first assignment and \<^verbatim>\<open>TypeError\<close>.
\<close>

lemma join_mic_effect:
  assumes "room_id = str (get data ''roomId'')" and "slot = str (get data ''slot'')"
    and "username = get data ''userName''" and "map_of rs room_id = Some r"
  shows "(slot \<in> keys (mic_slots r) \<longrightarrow>
           join_mic sid data rs =
             Inr (rs, [Emit ''mic_error'' (MicError ''Slot already taken'') (ToSid sid)])) \<and>
         (slot \<notin> keys (mic_slots r) \<and> hashable username \<longrightarrow>
           (\<exists>rs' r'. join_mic sid data rs =
                Inr (rs', [Emit ''mic_update'' (MicUpdate (mic_slots r')) (ToRoom room_id True)]) \<and>
              map_of rs' room_id = Some r' \<and>
              map_of (mic_slots r') = (map_of (mic_slots r))(slot \<mapsto> username) \<and>
              map_of (user_slots r') = (map_of (user_slots r))(username \<mapsto> slot) \<and>
              users r' = users r \<and> messages r' = messages r \<and>
              (\<forall>k. k \<noteq> room_id \<longrightarrow> map_of rs' k = map_of rs k))) \<and>
         (slot \<notin> keys (mic_slots r) \<and> \<not> hashable username \<longrightarrow>
           join_mic sid data rs =
             Inl (TypeError,
                  dict_set room_id (r\<lparr>mic_slots := dict_set slot username (mic_slots r)\<rparr>) rs))"
proof (intro conjI impI)
  assume "slot \<in> keys (mic_slots r)"
  then obtain holder where "map_of (mic_slots r) slot = Some holder"
    using map_of_keys [of "mic_slots r" slot] by auto
  with assms show "join_mic sid data rs =
      Inr (rs, [Emit ''mic_error'' (MicError ''Slot already taken'') (ToSid sid)])"
    by (simp add: join_mic_def)
next
  assume "slot \<notin> keys (mic_slots r) \<and> hashable username"
  then have "map_of (mic_slots r) slot = None" and "hashable username"
    by (simp_all add: map_of_keys)
  with assms show "\<exists>rs' r'. join_mic sid data rs =
        Inr (rs', [Emit ''mic_update'' (MicUpdate (mic_slots r')) (ToRoom room_id True)]) \<and>
      map_of rs' room_id = Some r' \<and>
      map_of (mic_slots r') = (map_of (mic_slots r))(slot \<mapsto> username) \<and>
      map_of (user_slots r') = (map_of (user_slots r))(username \<mapsto> slot) \<and>
      users r' = users r \<and> messages r' = messages r \<and>
      (\<forall>k. k \<noteq> room_id \<longrightarrow> map_of rs' k = map_of rs k)"
    by (simp add: join_mic_def Let_def map_of_dict_set)
next
  assume "slot \<notin> keys (mic_slots r) \<and> \<not> hashable username"
  then have "map_of (mic_slots r) slot = None" and "\<not> hashable username"
    by (simp_all add: map_of_keys)
  with assms show "join_mic sid data rs =
      Inl (TypeError,
           dict_set room_id (r\<lparr>mic_slots := dict_set slot username (mic_slots r)\<rparr>) rs)"
    by (simp add: join_mic_def Let_def)
qed

section \<open>Claims\<close>

text \<open>
  C1. Claimed: after every operation \<^verbatim>\<open>mic_slots\<close> and \<^verbatim>\<open>user_slots\<close> of a room are
  inverse to each other. \<^verbatim>\<open>join_mic\<close> tests only whether the slot is taken, not whether
  the user already holds one: after alice claims slot 1 and then slot 2, \<^verbatim>\<open>mic_slots\<close>
  maps both slots to alice while \<^verbatim>\<open>user_slots\<close> maps alice to slot 2 only.
\<close>

theorem second_claim_breaks_inverse:
  "mic_slots_of (run [OnJoinRoom ''s1'' (join_room_data ''r1'' ''alice'') ''t0'' ''t0'' ''t1'' ''t2'',
                      OnJoinMic ''s1'' (join_mic_data ''r1'' ''1'' ''alice''),
                      OnJoinMic ''s1'' (join_mic_data ''r1'' ''2'' ''alice'')]) ''r1''
     = [(''1'', PStr ''alice''), (''2'', PStr ''alice'')] \<and>
   user_slots_of (run [OnJoinRoom ''s1'' (join_room_data ''r1'' ''alice'') ''t0'' ''t0'' ''t1'' ''t2'',
                       OnJoinMic ''s1'' (join_mic_data ''r1'' ''1'' ''alice''),
                       OnJoinMic ''s1'' (join_mic_data ''r1'' ''2'' ''alice'')]) ''r1''
     = [(PStr ''alice'', ''2'')] \<and>
   \<not> slots_inverse (run [OnJoinRoom ''s1'' (join_room_data ''r1'' ''alice'') ''t0'' ''t0'' ''t1'' ''t2'',
                         OnJoinMic ''s1'' (join_mic_data ''r1'' ''1'' ''alice''),
                         OnJoinMic ''s1'' (join_mic_data ''r1'' ''2'' ''alice'')]) ''r1''"
proof -
  let ?rs = "run [OnJoinRoom ''s1'' (join_room_data ''r1'' ''alice'') ''t0'' ''t0'' ''t1'' ''t2'',
                  OnJoinMic ''s1'' (join_mic_data ''r1'' ''1'' ''alice''),
                  OnJoinMic ''s1'' (join_mic_data ''r1'' ''2'' ''alice'')]"
  have m: "mic_slots_of ?rs ''r1'' = [(''1'', PStr ''alice''), (''2'', PStr ''alice'')]"
    by (simp add: handler_defs observer_defs)
  have u: "user_slots_of ?rs ''r1'' = [(PStr ''alice'', ''2'')]"
    by (simp add: handler_defs observer_defs)
  have "\<not> slots_inverse ?rs ''r1''"
  proof
    assume "slots_inverse ?rs ''r1''"
    then have "map_of (mic_slots_of ?rs ''r1'') ''1'' = Some (PStr ''alice'') \<longleftrightarrow>
               map_of (user_slots_of ?rs ''r1'') (PStr ''alice'') = Some ''1''"
      unfolding slots_inverse_def by blast
    then show False unfolding m u by simp
  qed
  with m u show ?thesis by blast
qed

text \<open>
  C2. Claimed: a room is in the registry exactly when it has a member, and the disconnect
  of the last remaining member deletes the room. \<^verbatim>\<open>disconnect\<close> stops at the first room
  that holds the connection: a connection that joined \<^verbatim>\<open>r1\<close> and then \<^verbatim>\<open>r2\<close> is the only
  member of \<^verbatim>\<open>r2\<close>, and after its disconnect \<^verbatim>\<open>r2\<close> is still in the registry with that
  member; the one notice goes to \<^verbatim>\<open>r1\<close>.
\<close>

theorem last_member_disconnect_keeps_room:
  "members (run [OnJoinRoom ''s1'' (join_room_data ''r1'' ''alice'') ''t0'' ''t0'' ''t1'' ''t2'',
                 OnJoinRoom ''s1'' (join_room_data ''r2'' ''alice'') ''t3'' ''t3'' ''t4'' ''t5'']) ''r2''
     = [''s1''] \<and>
   keys (fst (disconnect ''s1'' ''t6''
     (run [OnJoinRoom ''s1'' (join_room_data ''r1'' ''alice'') ''t0'' ''t0'' ''t1'' ''t2'',
           OnJoinRoom ''s1'' (join_room_data ''r2'' ''alice'') ''t3'' ''t3'' ''t4'' ''t5'']))) = {''r2''} \<and>
   snd (disconnect ''s1'' ''t6''
     (run [OnJoinRoom ''s1'' (join_room_data ''r1'' ''alice'') ''t0'' ''t0'' ''t1'' ''t2'',
           OnJoinRoom ''s1'' (join_room_data ''r2'' ''alice'') ''t3'' ''t3'' ''t4'' ''t5'']))
     = [Emit ''new_message''
          (NewMessage \<lparr>m_user = PStr ''System'', m_text = ''alice left the room'',
                        m_timestamp = ''t6''\<rparr>) (ToRoom ''r1'' True)]"
  by (simp add: handler_defs)

text \<open>
  C3. Claimed: when the slot is free, \<^verbatim>\<open>join_mic\<close> sets \<^verbatim>\<open>mic_slots[slot]\<close> and
  \<^verbatim>\<open>user_slots[username]\<close> and broadcasts the updated \<^verbatim>\<open>mic_slots\<close>. For a \<^verbatim>\<open>userName\<close> that
  is a JSON array the first assignment is made and the second raises \<^verbatim>\<open>TypeError\<close>: the
  slot is taken, \<^verbatim>\<open>user_slots\<close> has no entry for it and nothing is emitted.
\<close>

theorem join_mic_unhashable_username:
  "join_mic ''s1''
     [''roomId'' \<mapsto> PStr ''r1'', ''slot'' \<mapsto> PStr ''1'', ''userName'' \<mapsto> PList [PStr ''alice'']]
     (run [OnJoinRoom ''s1'' (join_room_data ''r1'' ''alice'') ''t0'' ''t0'' ''t1'' ''t2'']) =
   Inl (TypeError,
        [(''r1'', \<lparr>users = [(''s1'', \<lparr>name = PStr ''alice'', joined_at = ''t1''\<rparr>)],
                   messages = [\<lparr>m_user = PStr ''System'', m_text = ''alice joined the room'',
                                 m_timestamp = ''t2''\<rparr>],
                   mic_slots = [(''1'', PList [PStr ''alice''])], user_slots = [],
                   created_at = ''t0'', updated_at = ''t0''\<rparr>)]) \<and>
   mic_slots_of
     (run [OnJoinRoom ''s1'' (join_room_data ''r1'' ''alice'') ''t0'' ''t0'' ''t1'' ''t2'',
           OnJoinMic ''s1'' [''roomId'' \<mapsto> PStr ''r1'', ''slot'' \<mapsto> PStr ''1'',
                             ''userName'' \<mapsto> PList [PStr ''alice'']]]) ''r1''
     = [(''1'', PList [PStr ''alice''])] \<and>
   user_slots_of
     (run [OnJoinRoom ''s1'' (join_room_data ''r1'' ''alice'') ''t0'' ''t0'' ''t1'' ''t2'',
           OnJoinMic ''s1'' [''roomId'' \<mapsto> PStr ''r1'', ''slot'' \<mapsto> PStr ''1'',
                             ''userName'' \<mapsto> PList [PStr ''alice'']]]) ''r1''
     = []"
  by (simp add: handler_defs observer_defs)

text \<open>
  C4. Claimed: \<^verbatim>\<open>leave_mic\<close> does nothing only when the room is absent or the user has
  no entry in \<^verbatim>\<open>user_slots\<close>. The test \<^verbatim>\<open>if slot:\<close> is also false for the empty string,
  which \<^verbatim>\<open>join_mic\<close> accepts as a slot: alice holds the slot \<^verbatim>\<open>""\<close>, and her
  \<^verbatim>\<open>leave_mic\<close> changes nothing and emits nothing.
\<close>

theorem leave_mic_empty_slot_kept:
  "user_slots_of (run [OnJoinRoom ''s1'' (join_room_data ''r1'' ''alice'') ''t0'' ''t0'' ''t1'' ''t2'',
                       OnJoinMic ''s1'' (join_mic_data ''r1'' [] ''alice'')]) ''r1''
     = [(PStr ''alice'', [])] \<and>
   leave_mic ''s1'' (leave_mic_data ''r1'' ''alice'')
     (run [OnJoinRoom ''s1'' (join_room_data ''r1'' ''alice'') ''t0'' ''t0'' ''t1'' ''t2'',
           OnJoinMic ''s1'' (join_mic_data ''r1'' [] ''alice'')])
     = Inr (run [OnJoinRoom ''s1'' (join_room_data ''r1'' ''alice'') ''t0'' ''t0'' ''t1'' ''t2'',
                 OnJoinMic ''s1'' (join_mic_data ''r1'' [] ''alice'')], [])"
  by (simp add: handler_defs observer_defs)



text \<open>
  C6. \<^verbatim>\<open>join\<close>: the effects are, in order, the subscription of the connection to the
  group of the room, \<^verbatim>\<open>room_data\<close> to the joining connection alone with the members and
  \<^verbatim>\<open>mic_slots\<close> of the room after the join, the room id and the joiner's name, and the
  notice \<^verbatim>\<open>"<name> joined the room"\<close> to the group of the room without the sender; the
  notice is appended to the messages of the room.
\<close>

theorem join_effect:
  assumes "room_id = str (get data ''roomId'')"
    and "username = get_default data ''userName'' (PStr ''User'')"
    and "msg = \<lparr>m_user = PStr ''System'', m_text = str username @ '' joined the room'',
                 m_timestamp = t_msg\<rparr>"
  shows "\<exists>rs' r'. join sid data t_created t_updated t_joined t_msg rs =
           (rs', [JoinRoom room_id sid,
                  Emit ''room_data''
                    (RoomData (map snd (users r')) (mic_slots r') room_id username) (ToSid sid),
                  Emit ''new_message'' (NewMessage msg) (ToRoom room_id False)]) \<and>
         map_of rs' room_id = Some r' \<and>
         map_of (users r') sid = Some \<lparr>name = username, joined_at = t_joined\<rparr> \<and>
         (\<forall>c. c \<noteq> sid \<longrightarrow>
            map_of (users r') c = (case map_of rs room_id of None \<Rightarrow> None
                                   | Some r \<Rightarrow> map_of (users r) c)) \<and>
         messages r' = (case map_of rs room_id of None \<Rightarrow> [] | Some r \<Rightarrow> messages r) @ [msg] \<and>
         mic_slots r' = (case map_of rs room_id of None \<Rightarrow> [] | Some r \<Rightarrow> mic_slots r) \<and>
         (\<forall>k. k \<noteq> room_id \<longrightarrow> map_of rs' k = map_of rs k)"
  using assms
  by (cases "map_of rs room_id")
     (simp_all add: join_def get_or_create_room_def Let_def map_of_dict_set dict_set_twice)

theorem join_effect_witness:
  "join ''s2'' (join_room_data ''r1'' ''bob'') ''t3'' ''t3'' ''t4'' ''t5''
     (run [OnJoinRoom ''s1'' (join_room_data ''r1'' ''alice'') ''t0'' ''t0'' ''t1'' ''t2'']) =
   ([(''r1'', \<lparr>users = [(''s1'', \<lparr>name = PStr ''alice'', joined_at = ''t1''\<rparr>),
                         (''s2'', \<lparr>name = PStr ''bob'', joined_at = ''t4''\<rparr>)],
              messages = [\<lparr>m_user = PStr ''System'', m_text = ''alice joined the room'',
                            m_timestamp = ''t2''\<rparr>,
                          \<lparr>m_user = PStr ''System'', m_text = ''bob joined the room'',
                            m_timestamp = ''t5''\<rparr>],
              mic_slots = [], user_slots = [], created_at = ''t0'', updated_at = ''t0''\<rparr>)],
    [JoinRoom ''r1'' ''s2'',
     Emit ''room_data''
       (RoomData [\<lparr>name = PStr ''alice'', joined_at = ''t1''\<rparr>,
                  \<lparr>name = PStr ''bob'', joined_at = ''t4''\<rparr>] [] ''r1'' (PStr ''bob''))
       (ToSid ''s2''),
     Emit ''new_message''
       (NewMessage \<lparr>m_user = PStr ''System'', m_text = ''bob joined the room'',
                     m_timestamp = ''t5''\<rparr>) (ToRoom ''r1'' False)])"
  using join_effect [OF refl refl refl, where sid = "''s2''"
      and data = "join_room_data ''r1'' ''bob''"
      and t_created = "''t3''" and t_updated = "''t3''" and t_joined = "''t4''" and t_msg = "''t5''"
      and rs = "run [OnJoinRoom ''s1'' (join_room_data ''r1'' ''alice'') ''t0'' ''t0'' ''t1'' ''t2'']"]
  by (simp add: handler_defs)



text \<open>
  C8. Claimed: no connection is ever a member of two rooms. \<^verbatim>\<open>join\<close> never removes the
  connection from a room it joined before, and \<^verbatim>\<open>disconnect\<close> stops at the first room:
  after joining \<^verbatim>\<open>r1\<close> and \<^verbatim>\<open>r2\<close> the connection is a member of both, and after its
  disconnect it is still a member of \<^verbatim>\<open>r2\<close>.
\<close>

theorem rejoin_keeps_old_membership:
  "members (run [OnJoinRoom ''s1'' (join_room_data ''r1'' ''alice'') ''t0'' ''t0'' ''t1'' ''t2'',
                 OnJoinRoom ''s1'' (join_room_data ''r2'' ''alice'') ''t3'' ''t3'' ''t4'' ''t5'']) ''r1''
     = [''s1''] \<and>
   members (run [OnJoinRoom ''s1'' (join_room_data ''r1'' ''alice'') ''t0'' ''t0'' ''t1'' ''t2'',
                 OnJoinRoom ''s1'' (join_room_data ''r2'' ''alice'') ''t3'' ''t3'' ''t4'' ''t5'']) ''r2''
     = [''s1''] \<and>
   members (run [OnJoinRoom ''s1'' (join_room_data ''r1'' ''alice'') ''t0'' ''t0'' ''t1'' ''t2'',
                 OnJoinRoom ''s1'' (join_room_data ''r2'' ''alice'') ''t3'' ''t3'' ''t4'' ''t5'',
                 OnDisconnect ''s1'' ''t6'']) ''r2''
     = [''s1'']"
  by (simp add: handler_defs)

text \<open>
  C9. Claimed: a missing \<^verbatim>\<open>userName\<close> is replaced by a placeholder in every handler.
  \<^verbatim>\<open>join\<close> substitutes \<^verbatim>\<open>"User"\<close>, but \<^verbatim>\<open>join_mic\<close> reads the field without a default
  and records \<^verbatim>\<open>None\<close> as the holder of the slot.
\<close>

theorem join_mic_missing_username:
  "mic_slots_of (run [OnJoinRoom ''s1'' (join_room_data ''r1'' ''alice'') ''t0'' ''t0'' ''t1'' ''t2'',
                      OnJoinMic ''s1'' [''roomId'' \<mapsto> PStr ''r1'', ''slot'' \<mapsto> PStr ''1'']]) ''r1''
     = [(''1'', PNone)] \<and>
   user_slots_of (run [OnJoinRoom ''s1'' (join_room_data ''r1'' ''alice'') ''t0'' ''t0'' ''t1'' ''t2'',
                       OnJoinMic ''s1'' [''roomId'' \<mapsto> PStr ''r1'', ''slot'' \<mapsto> PStr ''1'']]) ''r1''
     = [(PNone, ''1'')] \<and>
   name (snd (hd (users (snd (hd (run [OnJoinRoom ''s1'' [''roomId'' \<mapsto> PStr ''r1'']
                                         ''t0'' ''t0'' ''t1'' ''t2'']))))))
     = PStr ''User''"
  by (simp add: handler_defs observer_defs)

end
